theory Spec2Isabelle
  imports Main "HOL-Library.Multiset"
begin

section \<open>Data model\<close>

text \<open>
  A block is the dictionary built by \<^verbatim>\<open>QuantumNode.create_block\<close> (keys
  \<^verbatim>\<open>"transactions"\<close>, \<^verbatim>\<open>"previous_hash"\<close>, \<^verbatim>\<open>"hash"\<close>) and, in
  \<^verbatim>\<open>qtp.py\<close>, the object \<^verbatim>\<open>QuantumBlock\<close> with the same three attributes.
  Blocks are never mutated after construction, so they are kept as values.
\<close>

record Block =
  transactions :: "string list"
  previous_hash :: string
  hash :: string

text \<open>
  \<^verbatim>\<open>QuantumNode\<close>: the attribute \<^verbatim>\<open>chain\<close> is named \<open>chain_N\<close> here, the
  name \<open>chain\<close> being a constant of HOL.
\<close>

record QuantumNode =
  node_id :: int
  chain_N :: "Block list"

text \<open>
  Node objects are shared: \<^verbatim>\<open>QuantumNetwork.nodes\<close> and
  \<^verbatim>\<open>QuantumCloud.connected_nodes\<close> hold references to the same objects, and both
  \<^verbatim>\<open>create_block\<close> and \<^verbatim>\<open>broadcast\<close> mutate them. The node objects therefore
  live in a store (\<open>heap\<close>, addressed by position) and the two lists hold addresses.
\<close>

record QuantumCloud =
  connected_nodes :: "nat list"

datatype Contract = Contract string

record QuantumNetwork =
  heap :: "QuantumNode list"
  cloud :: QuantumCloud
  nodes :: "nat list"
  global_chain :: "Block list"
  contract :: "Contract option"

text \<open>The exceptions of the source, and the values a method hands back.\<close>

datatype error = IndexError | ValueError string | ConnectorError string

datatype pyval = PyNone | PyBlock Block | PyBytes string

section \<open>\<^verbatim>\<open>QuantumCloud\<close> and \<^verbatim>\<open>QuantumNode\<close>\<close>

definition QuantumCloud_init :: QuantumCloud where
  "QuantumCloud_init = \<lparr>connected_nodes = []\<rparr>"

definition connect_node :: "nat \<Rightarrow> QuantumCloud \<Rightarrow> QuantumCloud" where
  "connect_node node c = c\<lparr>connected_nodes := connected_nodes c @ [node]\<rparr>"

definition QuantumNode_init :: "int \<Rightarrow> QuantumNode" where
  "QuantumNode_init i = \<lparr>node_id = i, chain_N = []\<rparr>"

text \<open>\<^verbatim>\<open>node.chain.append(block)\<close> on the node object at address \<open>a\<close>.\<close>

definition chain_append :: "nat \<Rightarrow> Block \<Rightarrow> QuantumNode list \<Rightarrow> QuantumNode list" where
  "chain_append a b h = h[a := (h ! a)\<lparr>chain_N := chain_N (h ! a) @ [b]\<rparr>]"

text \<open>\<^verbatim>\<open>QuantumCloud.broadcast\<close>: the loop over \<^verbatim>\<open>connected_nodes\<close>.\<close>

fun broadcast_loop :: "nat list \<Rightarrow> Block \<Rightarrow> QuantumNode list \<Rightarrow> QuantumNode list" where
  "broadcast_loop [] b h = h"
| "broadcast_loop (node # rest) b h = broadcast_loop rest b (chain_append node b h)"

definition broadcast :: "Block \<Rightarrow> QuantumNetwork \<Rightarrow> QuantumNetwork" where
  "broadcast b net = net\<lparr>heap := broadcast_loop (connected_nodes (cloud net)) b (heap net)\<rparr>"

text \<open>
  \<^verbatim>\<open>generate_quantum_hash\<close>. The digest \<^verbatim>\<open>hashlib.sha256(..).hexdigest()\<close> and the
  string the simulator's output is printed to (\<^verbatim>\<open>state_str\<close>; \<^verbatim>\<open>measurement_str\<close>
  in the Braket variant) come from libraries: they are the parameters \<open>sha\<close> and
  \<open>state_str\<close>. The circuit does not read \<^verbatim>\<open>data\<close>.
\<close>

definition generate_quantum_hash :: "(string \<Rightarrow> string) \<Rightarrow> string \<Rightarrow> string \<Rightarrow> string" where
  "generate_quantum_hash sha state_str data = (let combined_data = data @ state_str in sha combined_data)"

definition create_block ::
  "(string \<Rightarrow> string) \<Rightarrow> string \<Rightarrow> nat \<Rightarrow> string list \<Rightarrow> string \<Rightarrow> QuantumNode list
     \<Rightarrow> Block \<times> QuantumNode list" where
  "create_block sha state_str self txs prev h =
     (let data = concat txs @ prev;
          block_hash = generate_quantum_hash sha state_str data;
          block = \<lparr>transactions = txs, previous_hash = prev, hash = block_hash\<rparr>
      in (block, chain_append self block h))"

section \<open>\<^verbatim>\<open>QuantumNetwork\<close>\<close>

text \<open>
  The constructor: \<^verbatim>\<open>range(num_nodes)\<close> is empty for \<^verbatim>\<open>num_nodes <= 0\<close>. Node
  \<open>i\<close> is allocated at address \<open>i\<close>; every node is then connected to the cloud in order.
\<close>

definition QuantumNetwork_init :: "int \<Rightarrow> QuantumNetwork" where
  "QuantumNetwork_init num_nodes =
     (let ns = [0..<nat num_nodes] in
      \<lparr>heap = map (\<lambda>i. QuantumNode_init (int i)) ns,
       cloud = fold connect_node ns QuantumCloud_init,
       nodes = ns,
       global_chain = [],
       contract = None\<rparr>)"

text \<open>
  \<^verbatim>\<open>add_block\<close>. \<^verbatim>\<open>self.nodes[0]\<close> raises \<^verbatim>\<open>IndexError\<close> on an empty node list,
  before anything is mutated. The method has no \<^verbatim>\<open>return\<close> statement.
\<close>

definition add_block ::
  "(string \<Rightarrow> string) \<Rightarrow> string \<Rightarrow> string list \<Rightarrow> QuantumNetwork \<Rightarrow> error + (pyval \<times> QuantumNetwork)" where
  "add_block sha state_str txs net =
     (let prev = (if global_chain net \<noteq> [] then hash (last (global_chain net))
                  else replicate 64 (CHR ''0''))
      in case nodes net of
           [] \<Rightarrow> Inl IndexError
         | node0 # _ \<Rightarrow>
             (let (new_block, h1) = create_block sha state_str node0 txs prev (heap net);
                  net1 = net\<lparr>heap := h1\<rparr>;
                  net2 = net1\<lparr>global_chain := global_chain net1 @ [new_block]\<rparr>;
                  net3 = broadcast new_block net2
              in Inr (PyNone, net3)))"

text \<open>
  \<^verbatim>\<open>validate_chain\<close>: the loop \<^verbatim>\<open>for i in range(1, len(chain))\<close> with its early
  \<^verbatim>\<open>return False\<close>. \<open>validate_stop\<close> is the same loop reporting the index at which
  it returned early.
\<close>

function validate_loop :: "Block list \<Rightarrow> nat \<Rightarrow> bool" where
  "validate_loop c i =
     (if i < length c
      then (if previous_hash (c ! i) \<noteq> hash (c ! (i - 1)) then False
            else validate_loop c (Suc i))
      else True)"
  by pat_completeness auto
termination
  by (relation "measure (\<lambda>(c, i). length c - i)") auto

function validate_stop :: "Block list \<Rightarrow> nat \<Rightarrow> nat option" where
  "validate_stop c i =
     (if i < length c
      then (if previous_hash (c ! i) \<noteq> hash (c ! (i - 1)) then Some i
            else validate_stop c (Suc i))
      else None)"
  by pat_completeness auto
termination
  by (relation "measure (\<lambda>(c, i). length c - i)") auto

declare validate_loop.simps [simp del] validate_stop.simps [simp del]

definition validate_chain :: "QuantumNetwork \<Rightarrow> bool \<times> QuantumNetwork" where
  "validate_chain net = (validate_loop (global_chain net) 1, net)"

text \<open>
  A sequence of \<^verbatim>\<open>add_block\<close> calls, each with the simulator output of that call and its
  transactions. An exception ends the sequence; the result is the exception, if any, and
  the network as the sequence left it (\<^verbatim>\<open>add_block\<close> raises before it mutates anything).
\<close>

fun add_blocks ::
  "(string \<Rightarrow> string) \<Rightarrow> (string \<times> string list) list \<Rightarrow> QuantumNetwork
     \<Rightarrow> error option \<times> QuantumNetwork" where
  "add_blocks sha [] net = (None, net)"
| "add_blocks sha ((state_str, txs) # calls) net =
     (case add_block sha state_str txs net of
        Inl e \<Rightarrow> (Some e, net)
      | Inr (_, net') \<Rightarrow> add_blocks sha calls net')"

text \<open>The chain-link property of a chain, as the data model states it.\<close>

definition linked :: "Block list \<Rightarrow> bool" where
  "linked c = (\<forall>i. 0 < i \<and> i < length c \<longrightarrow> previous_hash (c ! i) = hash (c ! (i - 1)))"

section \<open>\<^verbatim>\<open>qtp.py\<close>: \<^verbatim>\<open>QuantumBlock\<close> and \<^verbatim>\<open>QuantumBlockchain\<close>\<close>

text \<open>
  \<^verbatim>\<open>QuantumBlock.generate_hash\<close> digests \<^verbatim>\<open>state_str\<close> alone: it reads neither
  \<^verbatim>\<open>self.transactions\<close> nor \<^verbatim>\<open>self.previous_hash\<close>.
\<close>

definition generate_hash :: "(string \<Rightarrow> string) \<Rightarrow> string \<Rightarrow> string" where
  "generate_hash sha state_str = sha state_str"

definition QuantumBlock :: "(string \<Rightarrow> string) \<Rightarrow> string \<Rightarrow> string list \<Rightarrow> string \<Rightarrow> Block" where
  "QuantumBlock sha state_str txs prev =
     \<lparr>transactions = txs, previous_hash = prev, hash = generate_hash sha state_str\<rparr>"

record QuantumBlockchain =
  chain_B :: "Block list"

definition QuantumBlockchain_init :: QuantumBlockchain where
  "QuantumBlockchain_init = \<lparr>chain_B = []\<rparr>"

definition QuantumBlockchain_add_block ::
  "(string \<Rightarrow> string) \<Rightarrow> string \<Rightarrow> string list \<Rightarrow> QuantumBlockchain \<Rightarrow> pyval \<times> QuantumBlockchain" where
  "QuantumBlockchain_add_block sha state_str txs bc =
     (let prev = (if chain_B bc \<noteq> [] then hash (last (chain_B bc)) else replicate 64 (CHR ''0''));
          block = QuantumBlock sha state_str txs prev
      in (PyNone, bc\<lparr>chain_B := chain_B bc @ [block]\<rparr>))"

text \<open>\<^verbatim>\<open>is_valid\<close> runs the same loop as \<^verbatim>\<open>validate_chain\<close>, over \<^verbatim>\<open>self.chain\<close>.\<close>

definition is_valid :: "QuantumBlockchain \<Rightarrow> bool \<times> QuantumBlockchain" where
  "is_valid bc = (validate_loop (chain_B bc) 1, bc)"

fun QuantumBlockchain_add_blocks ::
  "(string \<Rightarrow> string) \<Rightarrow> (string \<times> string list) list \<Rightarrow> QuantumBlockchain \<Rightarrow> QuantumBlockchain" where
  "QuantumBlockchain_add_blocks sha [] bc = bc"
| "QuantumBlockchain_add_blocks sha ((state_str, txs) # calls) bc =
     QuantumBlockchain_add_blocks sha calls (snd (QuantumBlockchain_add_block sha state_str txs bc))"

section \<open>\<^verbatim>\<open>optimize_transaction_order\<close>\<close>

text \<open>
  \<^verbatim>\<open>itertools.permutations(xs)\<close> yields the orderings of \<open>xs\<close> in lexicographic order
  of the positions taken, elements being told apart by position and not by value: first
  every ordering that starts with \<open>xs[0]\<close>, then every one that starts with \<open>xs[1]\<close>, and
  so on, the rest ordered the same way. Of the empty list there is one ordering.
\<close>

function permutations :: "'a list \<Rightarrow> 'a list list" where
  "permutations xs =
     (if xs = [] then [[]]
      else concat (map (\<lambda>i. map (\<lambda>p. xs ! i # p) (permutations (take i xs @ drop (Suc i) xs)))
                       [0..<length xs]))"
  by pat_completeness auto
termination
  by (relation "measure length") auto

declare permutations.simps [simp del]

text \<open>
  \<^verbatim>\<open>calculate_cost\<close>: the loop \<^verbatim>\<open>for i in range(len(order) - 1)\<close>. The built-in
  \<^verbatim>\<open>hash\<close> of the interpreter is the parameter \<open>py_hash\<close>; Python integers are unbounded.
\<close>

definition calculate_cost :: "(string \<Rightarrow> int) \<Rightarrow> string list \<Rightarrow> int" where
  "calculate_cost py_hash order =
     fold (\<lambda>i cost. cost + \<bar>py_hash (order ! i) - py_hash (order ! (i + 1))\<bar>)
          [0..<length order - 1] 0"

text \<open>\<^verbatim>\<open>best_cost\<close> starts as \<^verbatim>\<open>float('inf')\<close>, above every integer.\<close>

datatype best_cost = Infinity | Finite int

fun cost_less :: "int \<Rightarrow> best_cost \<Rightarrow> bool" where
  "cost_less c Infinity = True"
| "cost_less c (Finite b) = (c < b)"

definition optimize_step ::
  "(string \<Rightarrow> int) \<Rightarrow> string list \<Rightarrow> string list \<times> best_cost \<Rightarrow> string list \<times> best_cost" where
  "optimize_step py_hash order st =
     (let cost = calculate_cost py_hash order
      in if cost_less cost (snd st) then (order, Finite cost) else st)"

definition optimize_transaction_order :: "(string \<Rightarrow> int) \<Rightarrow> string list \<Rightarrow> string list" where
  "optimize_transaction_order py_hash txs =
     fst (fold (optimize_step py_hash) (permutations txs) (txs, Infinity))"

section \<open>Ledger operations of \<^verbatim>\<open>Quantumeth.py\<close>\<close>

text \<open>
  Everything these methods do after their guard is a conversation with the Ethereum node
  through \<^verbatim>\<open>web3\<close> (building, signing and sending a transaction). That conversation is
  the parameter \<open>web3\<close>: it yields a transaction hash (a contract address for the
  deployment), or fails with an exception of the library, kept apart as
  \<open>ConnectorError\<close>.
\<close>

definition deploy_erc20_contract ::
  "(string \<Rightarrow> string \<Rightarrow> int \<Rightarrow> string \<Rightarrow> string \<Rightarrow> string + string)
     \<Rightarrow> string \<Rightarrow> string \<Rightarrow> int \<Rightarrow> string \<Rightarrow> string \<Rightarrow> QuantumNetwork
     \<Rightarrow> error + (pyval \<times> QuantumNetwork)" where
  "deploy_erc20_contract web3 name symbol initial_supply owner_address private_key net =
     (case web3 name symbol initial_supply owner_address private_key of
        Inl msg \<Rightarrow> Inl (ConnectorError msg)
      | Inr address \<Rightarrow> Inr (PyNone, net\<lparr>contract := Some (Contract address)\<rparr>))"

definition create_transaction ::
  "(Contract \<Rightarrow> string \<Rightarrow> int \<Rightarrow> string \<Rightarrow> string \<Rightarrow> string + string)
     \<Rightarrow> string \<Rightarrow> string \<Rightarrow> int \<Rightarrow> string \<Rightarrow> QuantumNetwork
     \<Rightarrow> error + (pyval \<times> QuantumNetwork)" where
  "create_transaction web3 sender_address recipient_address amount private_key net =
     (case contract net of
        None \<Rightarrow> Inl (ValueError ''ERC20 contract not deployed.'')
      | Some c \<Rightarrow>
          (case web3 c recipient_address amount sender_address private_key of
             Inl msg \<Rightarrow> Inl (ConnectorError msg)
           | Inr tx_hash \<Rightarrow> Inr (PyBytes tx_hash, net)))"

definition transfer_erc20 ::
  "(Contract \<Rightarrow> string \<Rightarrow> int \<Rightarrow> string \<Rightarrow> string \<Rightarrow> string + string)
     \<Rightarrow> string \<Rightarrow> int \<Rightarrow> string \<Rightarrow> string \<Rightarrow> QuantumNetwork
     \<Rightarrow> error + (pyval \<times> QuantumNetwork)" where
  "transfer_erc20 web3 recipient amount sender_address private_key net =
     (case contract net of
        None \<Rightarrow> Inl (ValueError ''ERC20 contract not deployed.'')
      | Some c \<Rightarrow>
          (case web3 c recipient amount sender_address private_key of
             Inl msg \<Rightarrow> Inl (ConnectorError msg)
           | Inr tx_hash \<Rightarrow> Inr (PyNone, net)))"

section \<open>Validation\<close>

lemma validate_loop_iff:
  "validate_loop c i = (\<forall>j. i \<le> j \<and> j < length c \<longrightarrow> previous_hash (c ! j) = hash (c ! (j - 1)))"
proof (induction c i rule: validate_loop.induct)
  case (1 c i)
  show ?case
  proof (cases "i < length c")
    case False
    then show ?thesis by (auto simp: validate_loop.simps [of c i])
  next
    case True
    show ?thesis
    proof (cases "previous_hash (c ! i) = hash (c ! (i - 1))")
      case False
      with True show ?thesis
        by (auto simp: validate_loop.simps [of c i])
    next
      case eq: True
      have "validate_loop c i = validate_loop c (Suc i)"
        using True eq by (simp add: validate_loop.simps [of c i])
      also have "\<dots> = (\<forall>j. Suc i \<le> j \<and> j < length c \<longrightarrow> previous_hash (c ! j) = hash (c ! (j - 1)))"
        using "1.IH" True eq by simp
      also have "\<dots> = (\<forall>j. i \<le> j \<and> j < length c \<longrightarrow> previous_hash (c ! j) = hash (c ! (j - 1)))"
        using eq by (metis Suc_leD Suc_leI le_neq_implies_less)
      finally show ?thesis .
    qed
  qed
qed

lemma validate_stop_None: "validate_loop c i = (validate_stop c i = None)"
  by (induction c i rule: validate_loop.induct)
     (subst validate_loop.simps, subst validate_stop.simps, auto)

lemma validate_stop_Some:
  "validate_stop c i = Some k \<Longrightarrow>
     i \<le> k \<and> k < length c \<and> previous_hash (c ! k) \<noteq> hash (c ! (k - 1)) \<and>
     (\<forall>j. i \<le> j \<and> j < k \<longrightarrow> previous_hash (c ! j) = hash (c ! (j - 1)))"
proof (induction c i rule: validate_stop.induct)
  case (1 c i)
  show ?case
  proof (cases "i < length c \<and> previous_hash (c ! i) = hash (c ! (i - 1))")
    case True
    then have "validate_stop c (Suc i) = Some k"
      using "1.prems" by (simp add: validate_stop.simps [of c i])
    with "1.IH" True
    have *: "Suc i \<le> k \<and> k < length c \<and> previous_hash (c ! k) \<noteq> hash (c ! (k - 1)) \<and>
       (\<forall>j. Suc i \<le> j \<and> j < k \<longrightarrow> previous_hash (c ! j) = hash (c ! (j - 1)))"
      by simp
    show ?thesis
    proof (intro conjI allI impI)
      fix j assume "i \<le> j \<and> j < k"
      then show "previous_hash (c ! j) = hash (c ! (j - 1))"
        using * True by (cases "j = i") auto
    qed (use * in auto)
  next
    case False
    then show ?thesis
      using "1.prems" by (auto simp: validate_stop.simps [of c i] split: if_splits)
  qed
qed

lemma validate_loop_linked: "validate_loop c (Suc 0) = linked c"
  unfolding validate_loop_iff linked_def by (simp add: Suc_le_eq)

lemma validate_loop_short: "length c \<le> 1 \<Longrightarrow> validate_loop c (Suc 0)"
  unfolding validate_loop_iff by auto

lemma validate_loop_fields:
  assumes "map previous_hash c1 = map previous_hash c2" and "map hash c1 = map hash c2"
  shows "validate_loop c1 i = validate_loop c2 i"
proof -
  have len: "length c1 = length c2"
    using assms(1) by (rule map_eq_imp_length_eq)
  have P: "previous_hash (c1 ! j) = previous_hash (c2 ! j)" if "j < length c1" for j
    using that arg_cong [OF assms(1), of "\<lambda>xs. xs ! j"] len by simp
  have H: "hash (c1 ! j) = hash (c2 ! j)" if "j < length c1" for j
    using that arg_cong [OF assms(2), of "\<lambda>xs. xs ! j"] len by simp
  have "(previous_hash (c1 ! j) = hash (c1 ! (j - 1))) = (previous_hash (c2 ! j) = hash (c2 ! (j - 1)))"
    if "j < length c1" for j
    using that P [of j] H [of "j - 1"] by (simp add: less_imp_diff_less)
  then show ?thesis
    unfolding validate_loop_iff len [symmetric] by blast
qed

lemma tamper_fields:
  fixes c :: "Block list"
  shows "map previous_hash (c[i := (c ! i)\<lparr>transactions := t\<rparr>]) = map previous_hash c"
    and "map hash (c[i := (c ! i)\<lparr>transactions := t\<rparr>]) = map hash c"
proof -
  have "f (c[i := (c ! i)\<lparr>transactions := t\<rparr>] ! j) = f (c ! j)"
    if "j < length c" and "f ((c ! i)\<lparr>transactions := t\<rparr>) = f (c ! i)" for j and f :: "Block \<Rightarrow> string"
    using that by (cases "j = i") simp_all
  then show "map previous_hash (c[i := (c ! i)\<lparr>transactions := t\<rparr>]) = map previous_hash c"
    and "map hash (c[i := (c ! i)\<lparr>transactions := t\<rparr>]) = map hash c"
    by (simp_all add: list_eq_iff_nth_eq)
qed

text \<open>
  Claim C5 (validation semantics). \<^verbatim>\<open>validate_chain\<close> returns \<^verbatim>\<open>False\<close> exactly when
  some index \<open>i > 0\<close> of the canonical chain has a \<^verbatim>\<open>previous_hash\<close> different from
  the \<^verbatim>\<open>hash\<close> of the block before it; the scan returns at the first such index (every
  earlier link matches); a chain of length 0 or 1 is valid; and the network is left as it
  was. The same holds of \<^verbatim>\<open>QuantumBlockchain.is_valid\<close>.
\<close>

theorem validation_semantics:
  "(fst (validate_chain net) = False) =
      (\<exists>i. 0 < i \<and> i < length (global_chain net) \<and>
           previous_hash (global_chain net ! i) \<noteq> hash (global_chain net ! (i - 1)))
   \<and> (fst (validate_chain net) = False) = (\<exists>k. validate_stop (global_chain net) 1 = Some k)
   \<and> (validate_stop (global_chain net) 1 = Some k \<longrightarrow>
        0 < k \<and> k < length (global_chain net) \<and>
        previous_hash (global_chain net ! k) \<noteq> hash (global_chain net ! (k - 1)) \<and>
        (\<forall>j. 0 < j \<and> j < k \<longrightarrow>
             previous_hash (global_chain net ! j) = hash (global_chain net ! (j - 1))))
   \<and> (length (global_chain net) \<le> 1 \<longrightarrow> fst (validate_chain net) = True)
   \<and> snd (validate_chain net) = net
   \<and> (fst (is_valid bc) = False) =
      (\<exists>i. 0 < i \<and> i < length (chain_B bc) \<and>
           previous_hash (chain_B bc ! i) \<noteq> hash (chain_B bc ! (i - 1)))
   \<and> (length (chain_B bc) \<le> 1 \<longrightarrow> fst (is_valid bc) = True)
   \<and> snd (is_valid bc) = bc"
proof (intro conjI)
  show "(fst (validate_chain net) = False) =
      (\<exists>i. 0 < i \<and> i < length (global_chain net) \<and>
           previous_hash (global_chain net ! i) \<noteq> hash (global_chain net ! (i - 1)))"
    by (auto simp: validate_chain_def validate_loop_linked linked_def)
  show "(fst (is_valid bc) = False) =
      (\<exists>i. 0 < i \<and> i < length (chain_B bc) \<and>
           previous_hash (chain_B bc ! i) \<noteq> hash (chain_B bc ! (i - 1)))"
    by (auto simp: is_valid_def validate_loop_linked linked_def)
  show "validate_stop (global_chain net) 1 = Some k \<longrightarrow>
        0 < k \<and> k < length (global_chain net) \<and>
        previous_hash (global_chain net ! k) \<noteq> hash (global_chain net ! (k - 1)) \<and>
        (\<forall>j. 0 < j \<and> j < k \<longrightarrow>
             previous_hash (global_chain net ! j) = hash (global_chain net ! (j - 1)))"
    using validate_stop_Some [of "global_chain net" 1 k]
    by (simp add: Suc_le_eq)
  show "(fst (validate_chain net) = False) = (\<exists>k. validate_stop (global_chain net) 1 = Some k)"
    by (simp add: validate_chain_def validate_stop_None)
qed (simp_all add: validate_chain_def is_valid_def validate_loop_short)

theorem validation_semantics_witness:
  "validate_stop
      [\<lparr>transactions = [''a''], previous_hash = replicate 64 (CHR ''0''), hash = ''h0''\<rparr>,
       \<lparr>transactions = [''b''], previous_hash = ''h0'', hash = ''h1''\<rparr>,
       \<lparr>transactions = [''c''], previous_hash = ''xx'', hash = ''h2''\<rparr>] 1 = Some 2
   \<and> fst (validate_chain ((QuantumNetwork_init 1)\<lparr>global_chain :=
      [\<lparr>transactions = [''a''], previous_hash = replicate 64 (CHR ''0''), hash = ''h0''\<rparr>,
       \<lparr>transactions = [''b''], previous_hash = ''h0'', hash = ''h1''\<rparr>,
       \<lparr>transactions = [''c''], previous_hash = ''xx'', hash = ''h2''\<rparr>]\<rparr>)) = False
   \<and> length (global_chain (QuantumNetwork_init 1)) \<le> 1
   \<and> fst (validate_chain (QuantumNetwork_init 1)) = True
   \<and> length (chain_B QuantumBlockchain_init) \<le> 1
   \<and> fst (is_valid QuantumBlockchain_init) = True"
proof -
  let ?c = "[\<lparr>transactions = [''a''], previous_hash = replicate 64 (CHR ''0''), hash = ''h0''\<rparr>,
       \<lparr>transactions = [''b''], previous_hash = ''h0'', hash = ''h1''\<rparr>,
       \<lparr>transactions = [''c''], previous_hash = ''xx'', hash = ''h2''\<rparr>]"
  let ?n = "(QuantumNetwork_init 1)\<lparr>global_chain := ?c\<rparr>"
  have stop: "validate_stop (global_chain ?n) 1 = Some 2"
    by (simp add: validate_stop.simps)
  have short: "length (global_chain (QuantumNetwork_init 1)) \<le> 1"
    "length (chain_B QuantumBlockchain_init) \<le> 1"
    by (simp_all add: QuantumNetwork_init_def QuantumBlockchain_init_def)
  show ?thesis
    using validation_semantics [of ?n 2 QuantumBlockchain_init]
      validation_semantics [of "QuantumNetwork_init 1" 0 QuantumBlockchain_init] stop short
    by simp
qed

text \<open>
  Claim C10 (validation ignores transaction contents). Two chains whose blocks agree
  pairwise on \<^verbatim>\<open>previous_hash\<close> and \<^verbatim>\<open>hash\<close> (and so have the same length) get the
  same verdict from \<^verbatim>\<open>validate_chain\<close>, whatever their transactions; replacing the
  transactions of any block of a chain leaves the verdict as it was.
\<close>

theorem validation_ignores_transactions:
  "(map previous_hash (global_chain n1) = map previous_hash (global_chain n2) \<and>
    map hash (global_chain n1) = map hash (global_chain n2)
      \<longrightarrow> fst (validate_chain n1) = fst (validate_chain n2))
   \<and> fst (validate_chain
           (net\<lparr>global_chain := (global_chain net)[i := (global_chain net ! i)\<lparr>transactions := t\<rparr>]\<rparr>))
       = fst (validate_chain net)"
proof (intro conjI impI)
  assume "map previous_hash (global_chain n1) = map previous_hash (global_chain n2) \<and>
    map hash (global_chain n1) = map hash (global_chain n2)"
  then show "fst (validate_chain n1) = fst (validate_chain n2)"
    using validate_loop_fields [of "global_chain n1" "global_chain n2" 1]
    by (simp add: validate_chain_def)
next
  have "validate_loop ((global_chain net)[i := (global_chain net ! i)\<lparr>transactions := t\<rparr>]) 1
          = validate_loop (global_chain net) 1"
    by (rule validate_loop_fields) (rule tamper_fields)+
  then show "fst (validate_chain
           (net\<lparr>global_chain := (global_chain net)[i := (global_chain net ! i)\<lparr>transactions := t\<rparr>]\<rparr>))
       = fst (validate_chain net)"
    by (simp add: validate_chain_def)
qed

theorem validation_ignores_transactions_witness:
  "map previous_hash
      [\<lparr>transactions = [''a pays b 1''], previous_hash = replicate 64 (CHR ''0''), hash = ''h0''\<rparr>,
       \<lparr>transactions = [''b pays c 2''], previous_hash = ''h0'', hash = ''h1''\<rparr>,
       \<lparr>transactions = [''c pays d 3''], previous_hash = ''xx'', hash = ''h2''\<rparr>]
     = map previous_hash
      [\<lparr>transactions = [''a pays b 1000''], previous_hash = replicate 64 (CHR ''0''), hash = ''h0''\<rparr>,
       \<lparr>transactions = [], previous_hash = ''h0'', hash = ''h1''\<rparr>,
       \<lparr>transactions = [''c pays d 3'', ''d pays a 9''], previous_hash = ''xx'', hash = ''h2''\<rparr>]
   \<and> map hash
      [\<lparr>transactions = [''a pays b 1''], previous_hash = replicate 64 (CHR ''0''), hash = ''h0''\<rparr>,
       \<lparr>transactions = [''b pays c 2''], previous_hash = ''h0'', hash = ''h1''\<rparr>,
       \<lparr>transactions = [''c pays d 3''], previous_hash = ''xx'', hash = ''h2''\<rparr>]
     = map hash
      [\<lparr>transactions = [''a pays b 1000''], previous_hash = replicate 64 (CHR ''0''), hash = ''h0''\<rparr>,
       \<lparr>transactions = [], previous_hash = ''h0'', hash = ''h1''\<rparr>,
       \<lparr>transactions = [''c pays d 3'', ''d pays a 9''], previous_hash = ''xx'', hash = ''h2''\<rparr>]
   \<and> fst (validate_chain ((QuantumNetwork_init 2)\<lparr>global_chain :=
      [\<lparr>transactions = [''a pays b 1''], previous_hash = replicate 64 (CHR ''0''), hash = ''h0''\<rparr>,
       \<lparr>transactions = [''b pays c 2''], previous_hash = ''h0'', hash = ''h1''\<rparr>,
       \<lparr>transactions = [''c pays d 3''], previous_hash = ''xx'', hash = ''h2''\<rparr>]\<rparr>)) = False
   \<and> fst (validate_chain ((QuantumNetwork_init 2)\<lparr>global_chain :=
      [\<lparr>transactions = [''a pays b 1000''], previous_hash = replicate 64 (CHR ''0''), hash = ''h0''\<rparr>,
       \<lparr>transactions = [], previous_hash = ''h0'', hash = ''h1''\<rparr>,
       \<lparr>transactions = [''c pays d 3'', ''d pays a 9''], previous_hash = ''xx'', hash = ''h2''\<rparr>]\<rparr>)) = False
   \<and> fst (validate_chain ((QuantumNetwork_init 2)\<lparr>global_chain :=
      [\<lparr>transactions = [''a pays b 1''], previous_hash = replicate 64 (CHR ''0''), hash = ''h0''\<rparr>,
       \<lparr>transactions = [''b pays c 2''], previous_hash = ''h0'', hash = ''h1''\<rparr>]\<rparr>)) = True
   \<and> fst (validate_chain ((QuantumNetwork_init 2)\<lparr>global_chain :=
      [\<lparr>transactions = [''a pays b 1''], previous_hash = replicate 64 (CHR ''0''), hash = ''h0''\<rparr>,
       \<lparr>transactions = [''b pays c 2000''], previous_hash = ''h0'', hash = ''h1''\<rparr>]\<rparr>)) = True"
proof -
  let ?a = "[\<lparr>transactions = [''a pays b 1''], previous_hash = replicate 64 (CHR ''0''), hash = ''h0''\<rparr>,
       \<lparr>transactions = [''b pays c 2''], previous_hash = ''h0'', hash = ''h1''\<rparr>,
       \<lparr>transactions = [''c pays d 3''], previous_hash = ''xx'', hash = ''h2''\<rparr>]"
  let ?b = "[\<lparr>transactions = [''a pays b 1000''], previous_hash = replicate 64 (CHR ''0''), hash = ''h0''\<rparr>,
       \<lparr>transactions = [], previous_hash = ''h0'', hash = ''h1''\<rparr>,
       \<lparr>transactions = [''c pays d 3'', ''d pays a 9''], previous_hash = ''xx'', hash = ''h2''\<rparr>]"
  let ?g = "[\<lparr>transactions = [''a pays b 1''], previous_hash = replicate 64 (CHR ''0''), hash = ''h0''\<rparr>,
       \<lparr>transactions = [''b pays c 2''], previous_hash = ''h0'', hash = ''h1''\<rparr>]"
  let ?na = "(QuantumNetwork_init 2)\<lparr>global_chain := ?a\<rparr>"
  let ?nb = "(QuantumNetwork_init 2)\<lparr>global_chain := ?b\<rparr>"
  let ?ng = "(QuantumNetwork_init 2)\<lparr>global_chain := ?g\<rparr>"
  have p: "map previous_hash ?a = map previous_hash ?b" and h: "map hash ?a = map hash ?b"
    by simp_all
  have va: "fst (validate_chain ?na) = False"
    by (simp add: validate_chain_def validate_loop.simps)
  have vg: "fst (validate_chain ?ng) = True"
    by (simp add: validate_chain_def validate_loop.simps)
  from validation_ignores_transactions [of ?na ?nb ?ng 1 "[''b pays c 2000'']"] p h
  have e: "fst (validate_chain ?na) = fst (validate_chain ?nb)"
    and t: "fst (validate_chain (?ng\<lparr>global_chain :=
               (global_chain ?ng)[1 := (global_chain ?ng ! 1)\<lparr>transactions := [''b pays c 2000'']\<rparr>]\<rparr>))
            = fst (validate_chain ?ng)"
    by simp_all
  from e va have vb: "fst (validate_chain ?nb) = False" by simp
  from t vg have vt: "fst (validate_chain ((QuantumNetwork_init 2)\<lparr>global_chain :=
      [\<lparr>transactions = [''a pays b 1''], previous_hash = replicate 64 (CHR ''0''), hash = ''h0''\<rparr>,
       \<lparr>transactions = [''b pays c 2000''], previous_hash = ''h0'', hash = ''h1''\<rparr>]\<rparr>)) = True"
    by simp
  from p h va vb vg vt show ?thesis by blast
qed

section \<open>Adding blocks\<close>

lemma add_block_Inl: "nodes net = [] \<Longrightarrow> add_block sha st txs net = Inl IndexError"
  by (simp add: add_block_def)

lemma add_block_Inr:
  assumes "nodes net = node0 # rest"
  shows "add_block sha st txs net =
           (let prev = (if global_chain net \<noteq> [] then hash (last (global_chain net))
                        else replicate 64 (CHR ''0''));
                b = \<lparr>transactions = txs, previous_hash = prev, hash = sha (concat txs @ prev @ st)\<rparr>
            in Inr (PyNone, net\<lparr>heap := broadcast_loop (connected_nodes (cloud net)) b
                                          (chain_append node0 b (heap net)),
                                global_chain := global_chain net @ [b]\<rparr>))"
  using assms
  by (simp add: add_block_def create_block_def generate_quantum_hash_def broadcast_def Let_def)

lemma linked_snoc:
  assumes "linked c" and "c \<noteq> [] \<longrightarrow> previous_hash b = hash (last c)"
  shows "linked (c @ [b])"
  unfolding linked_def
proof (intro allI impI)
  fix i assume i: "0 < i \<and> i < length (c @ [b])"
  show "previous_hash ((c @ [b]) ! i) = hash ((c @ [b]) ! (i - 1))"
  proof (cases "i < length c")
    case True
    then show ?thesis using assms(1) i by (auto simp: linked_def nth_append less_imp_diff_less)
  next
    case False
    then have "i = length c" using i by simp
    moreover have "c \<noteq> []" using i \<open>i = length c\<close> by auto
    ultimately show ?thesis using assms(2) by (simp add: nth_append last_conv_nth)
  qed
qed

lemma add_block_linked:
  assumes "add_block sha st txs net = Inr (r, net')" and "linked (global_chain net)"
  shows "linked (global_chain net') \<and> length (global_chain net') = Suc (length (global_chain net))
         \<and> nodes net' = nodes net"
proof -
  obtain node0 rest where ne: "nodes net = node0 # rest"
    using assms(1) add_block_Inl [of net sha st txs] by (cases "nodes net") auto
  show ?thesis
    using assms(1) linked_snoc [OF assms(2)] unfolding add_block_Inr [OF ne] Let_def
    by auto
qed

lemma add_blocks_linked:
  "linked (global_chain net) \<Longrightarrow> linked (global_chain (snd (add_blocks sha calls net)))"
proof (induction calls arbitrary: net)
  case Nil
  then show ?case by simp
next
  case (Cons call calls)
  obtain st txs where call: "call = (st, txs)" by (cases call)
  show ?case
  proof (cases "add_block sha st txs net")
    case (Inl e)
    then show ?thesis using Cons.prems by (simp add: call)
  next
    case (Inr res)
    obtain r net1 where res: "res = (r, net1)" by (cases res)
    from add_block_linked [OF Inr [unfolded res] Cons.prems] Cons.IH [of net1]
    show ?thesis by (simp add: call Inr res)
  qed
qed

lemma add_blocks_total:
  "nodes net \<noteq> [] \<Longrightarrow>
     fst (add_blocks sha calls net) = None \<and>
     length (global_chain (snd (add_blocks sha calls net))) = length (global_chain net) + length calls"
proof (induction calls arbitrary: net)
  case Nil
  then show ?case by simp
next
  case (Cons call calls)
  obtain st txs where call: "call = (st, txs)" by (cases call)
  obtain node0 rest where ne: "nodes net = node0 # rest"
    using Cons.prems by (cases "nodes net") auto
  from add_block_Inr [OF ne, of sha st txs] obtain net1 where
    step: "add_block sha st txs net = Inr (PyNone, net1)" and "nodes net1 = nodes net"
    and "length (global_chain net1) = Suc (length (global_chain net))"
    by (simp add: Let_def)
  with Cons.IH [of net1] Cons.prems show ?case by (simp add: call)
qed

lemma init_fields:
  "global_chain (QuantumNetwork_init k) = []"
  "nodes (QuantumNetwork_init k) = [0..<nat k]"
  by (simp_all add: QuantumNetwork_init_def Let_def)

lemma linked_Nil: "linked []"
  by (simp add: linked_def)

lemma qtp_add_block_linked:
  "linked (chain_B bc) \<Longrightarrow> linked (chain_B (snd (QuantumBlockchain_add_block sha st txs bc)))"
  using linked_snoc [of "chain_B bc" "QuantumBlock sha st txs
      (if chain_B bc \<noteq> [] then hash (last (chain_B bc)) else replicate 64 (CHR ''0''))"]
  by (simp add: QuantumBlockchain_add_block_def QuantumBlock_def Let_def)

lemma qtp_add_blocks_linked:
  "linked (chain_B bc) \<Longrightarrow> linked (chain_B (QuantumBlockchain_add_blocks sha calls bc))
     \<and> length (chain_B (QuantumBlockchain_add_blocks sha calls bc)) = length (chain_B bc) + length calls"
proof (induction calls arbitrary: bc)
  case Nil
  then show ?case by simp
next
  case (Cons call calls)
  obtain st txs where call: "call = (st, txs)" by (cases call)
  have "length (chain_B (snd (QuantumBlockchain_add_block sha st txs bc))) = Suc (length (chain_B bc))"
    by (simp add: QuantumBlockchain_add_block_def Let_def)
  with Cons.IH [OF qtp_add_block_linked [OF Cons.prems, of sha st txs]] show ?case
    by (simp add: call)
qed

text \<open>
  Claim C1 (chain-link invariant). From a fresh network, after any sequence of
  \<^verbatim>\<open>add_block\<close> calls, every block of the canonical chain after the first carries the
  hash of the block before it, and \<^verbatim>\<open>validate_chain\<close> returns \<^verbatim>\<open>True\<close>; with at least
  one node no call raises and the chain has one block per call. Any chain with a block whose
  \<^verbatim>\<open>previous_hash\<close> differs from its predecessor's \<^verbatim>\<open>hash\<close> makes
  \<^verbatim>\<open>validate_chain\<close> return \<^verbatim>\<open>False\<close>. The same holds of \<^verbatim>\<open>QuantumBlockchain\<close>
  with \<^verbatim>\<open>add_block\<close> and \<^verbatim>\<open>is_valid\<close>.
\<close>

theorem chain_link_invariant:
  "(\<forall>i. 0 < i \<and> i < length (global_chain (snd (add_blocks sha calls (QuantumNetwork_init num_nodes)))) \<longrightarrow>
        previous_hash (global_chain (snd (add_blocks sha calls (QuantumNetwork_init num_nodes))) ! i)
          = hash (global_chain (snd (add_blocks sha calls (QuantumNetwork_init num_nodes))) ! (i - 1)))
   \<and> fst (validate_chain (snd (add_blocks sha calls (QuantumNetwork_init num_nodes)))) = True
   \<and> (0 < num_nodes \<longrightarrow>
        fst (add_blocks sha calls (QuantumNetwork_init num_nodes)) = None \<and>
        length (global_chain (snd (add_blocks sha calls (QuantumNetwork_init num_nodes)))) = length calls)
   \<and> (0 < i \<and> i < length (global_chain net2) \<and>
        previous_hash (global_chain net2 ! i) \<noteq> hash (global_chain net2 ! (i - 1))
        \<longrightarrow> fst (validate_chain net2) = False)
   \<and> (\<forall>i. 0 < i \<and> i < length (chain_B (QuantumBlockchain_add_blocks sha calls QuantumBlockchain_init)) \<longrightarrow>
           previous_hash (chain_B (QuantumBlockchain_add_blocks sha calls QuantumBlockchain_init) ! i)
             = hash (chain_B (QuantumBlockchain_add_blocks sha calls QuantumBlockchain_init) ! (i - 1)))
   \<and> fst (is_valid (QuantumBlockchain_add_blocks sha calls QuantumBlockchain_init)) = True
   \<and> (0 < i \<and> i < length (chain_B bc) \<and>
        previous_hash (chain_B bc ! i) \<noteq> hash (chain_B bc ! (i - 1))
        \<longrightarrow> fst (is_valid bc) = False)"
proof -
  let ?net = "snd (add_blocks sha calls (QuantumNetwork_init num_nodes))"
  have A: "linked (global_chain ?net)"
    by (rule add_blocks_linked) (simp add: init_fields linked_Nil)
  have B: "fst (add_blocks sha calls (QuantumNetwork_init num_nodes)) = None \<and>
        length (global_chain ?net) = length calls" if "0 < num_nodes"
    using that add_blocks_total [of "QuantumNetwork_init num_nodes" sha calls]
    by (simp add: init_fields)
  have C: "linked (chain_B (QuantumBlockchain_add_blocks sha calls QuantumBlockchain_init))"
    using qtp_add_blocks_linked [of QuantumBlockchain_init sha calls]
    by (simp add: QuantumBlockchain_init_def linked_Nil)
  have D: "\<not> linked c" if "0 < i \<and> i < length c \<and> previous_hash (c ! i) \<noteq> hash (c ! (i - 1))"
    for c :: "Block list"
    using that unfolding linked_def by blast
  show ?thesis
  proof (intro conjI impI)
    show "\<forall>i. 0 < i \<and> i < length (global_chain ?net) \<longrightarrow>
           previous_hash (global_chain ?net ! i) = hash (global_chain ?net ! (i - 1))"
      using A unfolding linked_def .
    show "fst (validate_chain ?net) = True"
      using A by (simp add: validate_chain_def validate_loop_linked)
  next
    assume "0 < num_nodes"
    from B [OF this]
    show "fst (add_blocks sha calls (QuantumNetwork_init num_nodes)) = None"
      and "length (global_chain ?net) = length calls"
      by simp_all
  next
    assume "0 < i \<and> i < length (global_chain net2) \<and>
        previous_hash (global_chain net2 ! i) \<noteq> hash (global_chain net2 ! (i - 1))"
    from D [OF this] show "fst (validate_chain net2) = False"
      by (simp add: validate_chain_def validate_loop_linked)
  next
    show "\<forall>i. 0 < i \<and> i < length (chain_B (QuantumBlockchain_add_blocks sha calls QuantumBlockchain_init)) \<longrightarrow>
           previous_hash (chain_B (QuantumBlockchain_add_blocks sha calls QuantumBlockchain_init) ! i)
             = hash (chain_B (QuantumBlockchain_add_blocks sha calls QuantumBlockchain_init) ! (i - 1))"
      using C unfolding linked_def .
  next
    show "fst (is_valid (QuantumBlockchain_add_blocks sha calls QuantumBlockchain_init)) = True"
      using C by (simp add: is_valid_def validate_loop_linked)
  next
    assume "0 < i \<and> i < length (chain_B bc) \<and>
        previous_hash (chain_B bc ! i) \<noteq> hash (chain_B bc ! (i - 1))"
    from D [OF this] show "fst (is_valid bc) = False"
      by (simp add: is_valid_def validate_loop_linked)
  qed
qed

theorem chain_link_invariant_witness:
  "fst (add_blocks id [(''e'', [''a'']), (''f'', [''b'', ''c''])] (QuantumNetwork_init 2)) = None
   \<and> length (global_chain (snd (add_blocks id [(''e'', [''a'']), (''f'', [''b'', ''c''])]
                                  (QuantumNetwork_init 2)))) = 2
   \<and> previous_hash (global_chain (snd (add_blocks id [(''e'', [''a'']), (''f'', [''b'', ''c''])]
                                  (QuantumNetwork_init 2))) ! 1)
       = hash (global_chain (snd (add_blocks id [(''e'', [''a'']), (''f'', [''b'', ''c''])]
                                  (QuantumNetwork_init 2))) ! 0)
   \<and> fst (validate_chain (snd (add_blocks id [(''e'', [''a'']), (''f'', [''b'', ''c''])]
                                  (QuantumNetwork_init 2)))) = True
   \<and> previous_hash ([\<lparr>transactions = [''a''], previous_hash = ''p'', hash = ''h0''\<rparr>,
                      \<lparr>transactions = [''b''], previous_hash = ''xx'', hash = ''h1''\<rparr>] ! 1)
        \<noteq> hash ([\<lparr>transactions = [''a''], previous_hash = ''p'', hash = ''h0''\<rparr>,
                      \<lparr>transactions = [''b''], previous_hash = ''xx'', hash = ''h1''\<rparr>] ! 0)
   \<and> fst (validate_chain ((QuantumNetwork_init 2)\<lparr>global_chain :=
                     [\<lparr>transactions = [''a''], previous_hash = ''p'', hash = ''h0''\<rparr>,
                      \<lparr>transactions = [''b''], previous_hash = ''xx'', hash = ''h1''\<rparr>]\<rparr>)) = False
   \<and> fst (is_valid \<lparr>chain_B =
                     [\<lparr>transactions = [''a''], previous_hash = ''p'', hash = ''h0''\<rparr>,
                      \<lparr>transactions = [''b''], previous_hash = ''xx'', hash = ''h1''\<rparr>]\<rparr>) = False
   \<and> fst (is_valid (QuantumBlockchain_add_blocks id [(''e'', [''a'']), (''f'', [''b'', ''c''])]
                      QuantumBlockchain_init)) = True"
proof -
  let ?calls = "[(''e'', [''a'']), (''f'', [''b'', ''c''])]"
  let ?c = "[\<lparr>transactions = [''a''], previous_hash = ''p'', hash = ''h0''\<rparr>,
             \<lparr>transactions = [''b''], previous_hash = ''xx'', hash = ''h1''\<rparr>]"
  let ?n2 = "(QuantumNetwork_init 2)\<lparr>global_chain := ?c\<rparr>"
  let ?bc = "\<lparr>chain_B = ?c\<rparr>"
  let ?net = "snd (add_blocks id ?calls (QuantumNetwork_init 2))"
  note T = chain_link_invariant [where sha = id and calls = ?calls and num_nodes = 2
      and i = 1 and ?net2.0 = ?n2 and bc = ?bc]
  from T have len: "fst (add_blocks id ?calls (QuantumNetwork_init 2)) = None"
    "length (global_chain ?net) = 2"
    by simp_all
  from T have "\<forall>i. 0 < i \<and> i < length (global_chain ?net) \<longrightarrow>
        previous_hash (global_chain ?net ! i) = hash (global_chain ?net ! (i - 1))"
    by blast
  with len have link: "previous_hash (global_chain ?net ! 1) = hash (global_chain ?net ! 0)"
    by simp
  from T have ok: "fst (validate_chain ?net) = True" by blast
  have bad: "fst (validate_chain ?n2) = False" "fst (is_valid ?bc) = False"
    using T by simp_all
  have "fst (is_valid (QuantumBlockchain_add_blocks id ?calls QuantumBlockchain_init)) = True"
    using T by blast
  with len link ok bad show ?thesis by simp
qed

text \<open>
  Claim C6 (genesis sentinel). Whenever \<^verbatim>\<open>add_block\<close> returns, the canonical chain is the
  old one with one block appended, and that block's \<^verbatim>\<open>previous_hash\<close> is the hash of the
  old chain's last block, or 64 characters \<^verbatim>\<open>0\<close> when the old chain was empty. The only
  way for the call not to return is the \<^verbatim>\<open>IndexError\<close> of a network without nodes. On a
  fresh network with at least one node the first block added has the 64 zeros as
  \<^verbatim>\<open>previous_hash\<close>, and a fresh network validates. The same holds of
  \<^verbatim>\<open>QuantumBlockchain\<close>.
\<close>

theorem genesis_sentinel:
  "(add_block sha st txs net = Inr (r, net') \<longrightarrow>
      nodes net \<noteq> [] \<and>
      butlast (global_chain net') = global_chain net \<and> global_chain net' \<noteq> [] \<and>
      previous_hash (last (global_chain net')) =
        (if global_chain net \<noteq> [] then hash (last (global_chain net)) else replicate 64 (CHR ''0'')))
   \<and> (add_block sha st txs net = Inl e \<longrightarrow> e = IndexError \<and> nodes net = [])
   \<and> (0 < num_nodes \<longrightarrow>
        (\<exists>net1. add_block sha st txs (QuantumNetwork_init num_nodes) = Inr (PyNone, net1) \<and>
                map previous_hash (global_chain net1) = [replicate 64 (CHR ''0'')]))
   \<and> fst (validate_chain (QuantumNetwork_init num_nodes)) = True
   \<and> butlast (chain_B (snd (QuantumBlockchain_add_block sha st txs bc))) = chain_B bc
   \<and> previous_hash (last (chain_B (snd (QuantumBlockchain_add_block sha st txs bc)))) =
        (if chain_B bc \<noteq> [] then hash (last (chain_B bc)) else replicate 64 (CHR ''0''))
   \<and> fst (is_valid QuantumBlockchain_init) = True"
proof (intro conjI impI)
  assume run: "add_block sha st txs net = Inr (r, net')"
  then obtain node0 rest where ne: "nodes net = node0 # rest"
    using add_block_Inl [of net sha st txs] by (cases "nodes net") auto
  from ne show "nodes net \<noteq> []" by simp
  from run show "butlast (global_chain net') = global_chain net"
    and "global_chain net' \<noteq> []"
    and "previous_hash (last (global_chain net')) =
        (if global_chain net \<noteq> [] then hash (last (global_chain net)) else replicate 64 (CHR ''0''))"
    unfolding add_block_Inr [OF ne] Let_def by auto
next
  assume err: "add_block sha st txs net = Inl e"
  show "e = IndexError" "nodes net = []"
    using err by (cases "nodes net"; simp add: add_block_Inl add_block_Inr Let_def)+
next
  assume "0 < num_nodes"
  then have "nodes (QuantumNetwork_init num_nodes) = 0 # [1..<nat num_nodes]"
    by (simp add: init_fields upt_conv_Cons)
  from add_block_Inr [OF this, of sha st txs]
  show "\<exists>net1. add_block sha st txs (QuantumNetwork_init num_nodes) = Inr (PyNone, net1) \<and>
                map previous_hash (global_chain net1) = [replicate 64 (CHR ''0'')]"
    by (simp add: Let_def init_fields)
next
  show "fst (validate_chain (QuantumNetwork_init num_nodes)) = True"
    by (simp add: validate_chain_def init_fields validate_loop_short)
  show "fst (is_valid QuantumBlockchain_init) = True"
    by (simp add: is_valid_def QuantumBlockchain_init_def validate_loop_short)
  show "butlast (chain_B (snd (QuantumBlockchain_add_block sha st txs bc))) = chain_B bc"
    by (simp add: QuantumBlockchain_add_block_def Let_def)
  show "previous_hash (last (chain_B (snd (QuantumBlockchain_add_block sha st txs bc)))) =
        (if chain_B bc \<noteq> [] then hash (last (chain_B bc)) else replicate 64 (CHR ''0''))"
    by (simp add: QuantumBlockchain_add_block_def QuantumBlock_def Let_def)
qed

theorem genesis_sentinel_witness:
  "(\<exists>net1 net2. add_block id ''e'' [''a''] (QuantumNetwork_init 2) = Inr (PyNone, net1)
        \<and> previous_hash (last (global_chain net1)) = replicate 64 (CHR ''0'')
        \<and> add_block id ''f'' [''b''] net1 = Inr (PyNone, net2)
        \<and> previous_hash (last (global_chain net2)) = hash (last (global_chain net1)))
   \<and> add_block id ''e'' [''a''] (QuantumNetwork_init 0) = Inl IndexError
   \<and> nodes (QuantumNetwork_init 0) = []"
proof -
  note T = genesis_sentinel [where sha = id and bc = QuantumBlockchain_init]
  from T [where st = "''e''" and txs = "[''a'']" and num_nodes = 2 and net = "QuantumNetwork_init 2"
      and r = PyNone and net' = "QuantumNetwork_init 2" and e = IndexError]
  obtain net1 where 1: "add_block id ''e'' [''a''] (QuantumNetwork_init 2) = Inr (PyNone, net1)"
    and c1: "map previous_hash (global_chain net1) = [replicate 64 (CHR ''0'')]"
    by auto
  have p1: "previous_hash (last (global_chain net1)) = replicate 64 (CHR ''0'')"
    and ne1: "global_chain net1 \<noteq> []"
    using T [where st = "''e''" and txs = "[''a'']" and num_nodes = 2 and net = "QuantumNetwork_init 2"
      and r = PyNone and net' = net1 and e = IndexError] 1
    by (simp_all add: init_fields)
  have "nodes net1 = nodes (QuantumNetwork_init 2)"
    using add_block_linked [OF 1] by (simp add: init_fields linked_Nil)
  then have "nodes net1 = 0 # [1]"
    by (simp add: init_fields upt_conv_Cons)
  from add_block_Inr [OF this, of id "''f''" "[''b'']"]
  obtain net2 where 2: "add_block id ''f'' [''b''] net1 = Inr (PyNone, net2)"
    by (simp add: Let_def)
  have p2: "previous_hash (last (global_chain net2)) = hash (last (global_chain net1))"
    using T [where st = "''f''" and txs = "[''b'']" and num_nodes = 2 and net = net1
      and r = PyNone and net' = net2 and e = IndexError] 2 ne1
    by simp
  have 0: "add_block id ''e'' [''a''] (QuantumNetwork_init 0) = Inl IndexError"
    by (simp add: add_block_Inl init_fields)
  have "nodes (QuantumNetwork_init 0) = []"
    using T [where st = "''e''" and txs = "[''a'']" and num_nodes = 2 and net = "QuantumNetwork_init 0"
      and r = PyNone and net' = net1 and e = IndexError] 0
    by simp
  with 0 1 2 p1 p2 show ?thesis by blast
qed

text \<open>
  Claim C7 (return value of \<^verbatim>\<open>add_block\<close>), as amended. \<^verbatim>\<open>add_block\<close> returns
  \<^verbatim>\<open>None\<close>: the method has no \<^verbatim>\<open>return\<close> statement in any of the source files. The
  block it created, the very block \<^verbatim>\<open>create_block\<close> of the producer node returned (the
  given transactions, the previous hash computed from the canonical chain, and the digest
  of the joined transactions, the previous hash and the simulator's string), is the new
  last element of the canonical chain; on a network without nodes the call raises
  \<^verbatim>\<open>IndexError\<close>. \<^verbatim>\<open>QuantumBlockchain.add_block\<close> returns \<^verbatim>\<open>None\<close> as well and
  appends the \<^verbatim>\<open>QuantumBlock\<close> it constructed.
\<close>

theorem add_block_returns_none:
  "(nodes net \<noteq> [] \<longrightarrow>
      (\<exists>net'. add_block sha st txs net = Inr (PyNone, net') \<and>
         global_chain net' = global_chain net @
           [fst (create_block sha st (hd (nodes net)) txs
                   (if global_chain net \<noteq> [] then hash (last (global_chain net))
                    else replicate 64 (CHR ''0'')) (heap net))] \<and>
         last (global_chain net') =
           \<lparr>transactions = txs,
            previous_hash = (if global_chain net \<noteq> [] then hash (last (global_chain net))
                             else replicate 64 (CHR ''0'')),
            hash = sha (concat txs @
                        (if global_chain net \<noteq> [] then hash (last (global_chain net))
                         else replicate 64 (CHR ''0'')) @ st)\<rparr>))
   \<and> (nodes net = [] \<longrightarrow> add_block sha st txs net = Inl IndexError)
   \<and> QuantumBlockchain_add_block sha st txs bc =
        (PyNone, bc\<lparr>chain_B := chain_B bc @
           [QuantumBlock sha st txs
              (if chain_B bc \<noteq> [] then hash (last (chain_B bc)) else replicate 64 (CHR ''0''))]\<rparr>)"
proof (intro conjI impI)
  assume "nodes net \<noteq> []"
  then obtain node0 rest where ne: "nodes net = node0 # rest"
    by (cases "nodes net") auto
  show "\<exists>net'. add_block sha st txs net = Inr (PyNone, net') \<and>
         global_chain net' = global_chain net @
           [fst (create_block sha st (hd (nodes net)) txs
                   (if global_chain net \<noteq> [] then hash (last (global_chain net))
                    else replicate 64 (CHR ''0'')) (heap net))] \<and>
         last (global_chain net') =
           \<lparr>transactions = txs,
            previous_hash = (if global_chain net \<noteq> [] then hash (last (global_chain net))
                             else replicate 64 (CHR ''0'')),
            hash = sha (concat txs @
                        (if global_chain net \<noteq> [] then hash (last (global_chain net))
                         else replicate 64 (CHR ''0'')) @ st)\<rparr>"
    unfolding add_block_Inr [OF ne] Let_def
    by (simp add: ne create_block_def generate_quantum_hash_def Let_def)
next
  assume "nodes net = []"
  then show "add_block sha st txs net = Inl IndexError" by (rule add_block_Inl)
next
  show "QuantumBlockchain_add_block sha st txs bc =
        (PyNone, bc\<lparr>chain_B := chain_B bc @
           [QuantumBlock sha st txs
              (if chain_B bc \<noteq> [] then hash (last (chain_B bc)) else replicate 64 (CHR ''0''))]\<rparr>)"
    by (simp add: QuantumBlockchain_add_block_def Let_def)
qed

theorem add_block_returns_none_witness:
  "nodes (QuantumNetwork_init 1) \<noteq> []
   \<and> (\<exists>net'. add_block id ''e'' [''a''] (QuantumNetwork_init 1) = Inr (PyNone, net')
         \<and> global_chain net' =
             [\<lparr>transactions = [''a''], previous_hash = replicate 64 (CHR ''0''),
               hash = ''a'' @ replicate 64 (CHR ''0'') @ ''e''\<rparr>])
   \<and> nodes (QuantumNetwork_init 0) = []
   \<and> add_block id ''e'' [''a''] (QuantumNetwork_init 0) = Inl IndexError"
proof -
  have n1: "nodes (QuantumNetwork_init 1) \<noteq> []" and n0: "nodes (QuantumNetwork_init 0) = []"
    and g: "global_chain (QuantumNetwork_init 1) = []"
    by (simp_all add: init_fields)
  from add_block_returns_none [of "QuantumNetwork_init 1" id "''e''" "[''a'']" QuantumBlockchain_init] n1
  obtain net' where r: "add_block id ''e'' [''a''] (QuantumNetwork_init 1) = Inr (PyNone, net')"
    and c: "global_chain net' = global_chain (QuantumNetwork_init 1) @
           [fst (create_block id ''e'' (hd (nodes (QuantumNetwork_init 1))) [''a'']
                   (if global_chain (QuantumNetwork_init 1) \<noteq> []
                    then hash (last (global_chain (QuantumNetwork_init 1)))
                    else replicate 64 (CHR ''0'')) (heap (QuantumNetwork_init 1)))]"
    and l: "last (global_chain net') =
           \<lparr>transactions = [''a''],
            previous_hash = (if global_chain (QuantumNetwork_init 1) \<noteq> []
                             then hash (last (global_chain (QuantumNetwork_init 1)))
                             else replicate 64 (CHR ''0'')),
            hash = id (concat [''a''] @
                        (if global_chain (QuantumNetwork_init 1) \<noteq> []
                         then hash (last (global_chain (QuantumNetwork_init 1)))
                         else replicate 64 (CHR ''0'')) @ ''e'')\<rparr>"
    by blast
  from c have "global_chain net' = [last (global_chain net')]"
    by (simp add: g)
  with l have "global_chain net' =
             [\<lparr>transactions = [''a''], previous_hash = replicate 64 (CHR ''0''),
               hash = ''a'' @ replicate 64 (CHR ''0'') @ ''e''\<rparr>]"
    by (simp add: g)
  with r have ex: "\<exists>net'. add_block id ''e'' [''a''] (QuantumNetwork_init 1) = Inr (PyNone, net')
         \<and> global_chain net' =
             [\<lparr>transactions = [''a''], previous_hash = replicate 64 (CHR ''0''),
               hash = ''a'' @ replicate 64 (CHR ''0'') @ ''e''\<rparr>]"
    by blast
  from add_block_returns_none [of "QuantumNetwork_init 0" id "''e''" "[''a'']" QuantumBlockchain_init] n0
  have "add_block id ''e'' [''a''] (QuantumNetwork_init 0) = Inl IndexError" by blast
  with n1 n0 ex show ?thesis by blast
qed

text \<open>
  Claim C7 as stated fails: on a one-node network the call returns \<^verbatim>\<open>None\<close>, not the
  block it appended.
\<close>

theorem add_block_returns_block_counterexample:
  "(case add_block id ''e'' [''a''] (QuantumNetwork_init 1) of
      Inl e \<Rightarrow> False
    | Inr (r, net') \<Rightarrow> r = PyNone \<and> r \<noteq> PyBlock (last (global_chain net')))"
  by (simp add: add_block_def create_block_def generate_quantum_hash_def broadcast_def Let_def
      QuantumNetwork_init_def)

section \<open>Replication\<close>

lemma chain_append_nth:
  "a < length h \<Longrightarrow> chain_N (chain_append a b h ! a') = chain_N (h ! a') @ (if a' = a then [b] else [])"
  by (simp add: chain_append_def nth_list_update)

lemma chain_append_length: "length (chain_append a b h) = length h"
  by (simp add: chain_append_def)

lemma broadcast_loop_length: "length (broadcast_loop as b h) = length h"
  by (induction as arbitrary: h) (simp_all add: chain_append_length)

lemma broadcast_loop_nth:
  "distinct as \<Longrightarrow> \<forall>a\<in>set as. a < length h \<Longrightarrow>
     chain_N (broadcast_loop as b h ! a') = chain_N (h ! a') @ (if a' \<in> set as then [b] else [])"
proof (induction as arbitrary: h)
  case Nil
  then show ?case by simp
next
  case (Cons a as)
  have "chain_N (broadcast_loop as b (chain_append a b h) ! a')
          = chain_N (chain_append a b h ! a') @ (if a' \<in> set as then [b] else [])"
    using Cons.prems by (intro Cons.IH) (simp_all add: chain_append_length)
  then show ?case
    using Cons.prems by (auto simp: chain_append_nth)
qed

lemma init_cloud: "connected_nodes (fold connect_node ns c) = connected_nodes c @ ns"
  by (induction ns arbitrary: c) (simp_all add: connect_node_def)

lemma init_wf:
  "connected_nodes (cloud (QuantumNetwork_init k)) = [0..<nat k]"
  "length (heap (QuantumNetwork_init k)) = nat k"
  by (simp_all add: QuantumNetwork_init_def Let_def init_cloud QuantumCloud_init_def)

lemma add_block_replicas:
  assumes wf: "nodes net = node0 # rest" "connected_nodes (cloud net) = nodes net"
      "distinct (nodes net)" "\<forall>a\<in>set (nodes net). a < length (heap net)"
    and run: "add_block sha st txs net = Inr (r, net')"
  shows "chain_N (heap net' ! a) =
           chain_N (heap net ! a) @
             (if a = node0 then [last (global_chain net'), last (global_chain net')]
              else if a \<in> set rest then [last (global_chain net')] else [])"
    and "global_chain net' = global_chain net @ [last (global_chain net')]"
    and "nodes net' = nodes net" and "cloud net' = cloud net" and "length (heap net') = length (heap net)"
proof -
  let ?prev = "if global_chain net \<noteq> [] then hash (last (global_chain net)) else replicate 64 (CHR ''0'')"
  let ?b = "\<lparr>transactions = txs, previous_hash = ?prev, hash = sha (concat txs @ ?prev @ st)\<rparr>"
  have net': "net' = net\<lparr>heap := broadcast_loop (connected_nodes (cloud net)) ?b
                                          (chain_append node0 ?b (heap net)),
                                global_chain := global_chain net @ [?b]\<rparr>"
    using run unfolding add_block_Inr [OF wf(1)] Let_def by simp
  then show "global_chain net' = global_chain net @ [last (global_chain net')]"
    and "nodes net' = nodes net" and "cloud net' = cloud net" and "length (heap net') = length (heap net)"
    by (simp_all add: broadcast_loop_length chain_append_length)
  have "distinct (connected_nodes (cloud net))"
    and "\<forall>a\<in>set (connected_nodes (cloud net)). a < length (chain_append node0 ?b (heap net))"
    using wf by (simp_all add: chain_append_length)
  then have "chain_N (broadcast_loop (connected_nodes (cloud net)) ?b (chain_append node0 ?b (heap net)) ! a) =
          chain_N (chain_append node0 ?b (heap net) ! a) @
            (if a \<in> set (connected_nodes (cloud net)) then [?b] else [])"
    by (rule broadcast_loop_nth)
  then have "chain_N (heap net' ! a) =
          chain_N (chain_append node0 ?b (heap net) ! a) @ (if a \<in> set (nodes net) then [?b] else [])"
    unfolding net' wf(2) by simp
  also have "chain_N (chain_append node0 ?b (heap net) ! a)
               = chain_N (heap net ! a) @ (if a = node0 then [?b] else [])"
    using wf by (intro chain_append_nth) simp
  finally show "chain_N (heap net' ! a) =
           chain_N (heap net ! a) @
             (if a = node0 then [last (global_chain net'), last (global_chain net')]
              else if a \<in> set rest then [last (global_chain net')] else [])"
    using wf(1) by (simp add: net')
qed

lemma fresh_network_replicas:
  assumes "0 < k" and "add_block sha st txs (QuantumNetwork_init k) = Inr (r, net')"
  shows "chain_N (heap net' ! a) =
           (if a = 0 then [last (global_chain net'), last (global_chain net')]
            else if a < nat k then [last (global_chain net')] else chain_N (heap (QuantumNetwork_init k) ! a))"
proof -
  have n: "nodes (QuantumNetwork_init k) = 0 # [1..<nat k]"
    using assms(1) by (simp add: init_fields upt_conv_Cons)
  have e: "chain_N (heap (QuantumNetwork_init k) ! a) = []" if "a < nat k"
    using that by (simp add: QuantumNetwork_init_def Let_def QuantumNode_init_def)
  have "chain_N (heap net' ! a) =
           chain_N (heap (QuantumNetwork_init k) ! a) @
             (if a = 0 then [last (global_chain net'), last (global_chain net')]
              else if a \<in> set [1..<nat k] then [last (global_chain net')] else [])"
    using assms(2) by (intro add_block_replicas(1) [OF n]) (simp_all add: init_wf init_fields)
  then show ?thesis
    using e assms(1) by (cases "a = 0"; cases "a < nat k"; simp)
qed

text \<open>
  Claim C2 (replication fidelity) does not hold of the code. \<^verbatim>\<open>add_block\<close> has the
  producer \<^verbatim>\<open>self.nodes[0]\<close> create the block, and \<^verbatim>\<open>create_block\<close> appends it to the
  producer's own chain; \<^verbatim>\<open>broadcast\<close> then appends it to the chain of every connected
  node, the producer among them (lemmas \<open>add_block_replicas\<close>, \<open>fresh_network_replicas\<close>).
  One call on a fresh three-node network, with the identity standing in for the digest:
  the canonical chain has one block, the replicas of nodes 1 and 2 have one block, and the
  producer's replica has two, the same block twice, which as a chain fails the link check.
\<close>

theorem producer_replica_grows_by_two:
  "(case add_block id ''e'' [''a''] (QuantumNetwork_init 3) of
      Inl e \<Rightarrow> False
    | Inr (r, net') \<Rightarrow>
        map (\<lambda>n. length (chain_N n)) (heap (QuantumNetwork_init 3)) = [0, 0, 0]
        \<and> length (global_chain (QuantumNetwork_init 3)) = 0
        \<and> length (global_chain net') = 1
        \<and> map (\<lambda>n. length (chain_N n)) (heap net') = [2, 1, 1]
        \<and> chain_N (heap net' ! 0) = global_chain net' @ global_chain net'
        \<and> chain_N (heap net' ! 1) = global_chain net'
        \<and> validate_loop (chain_N (heap net' ! 0)) 1 = False)"
  by (simp add: add_block_def create_block_def generate_quantum_hash_def broadcast_def Let_def
      QuantumNetwork_init_def QuantumNode_init_def QuantumCloud_init_def connect_node_def
      chain_append_def upt_rec numeral_nat validate_loop.simps)

section \<open>Hashing\<close>

lemma create_block_hash:
  "hash (fst (create_block sha st self txs prev h)) = sha (concat txs @ prev @ st)"
  "transactions (fst (create_block sha st self txs prev h)) = txs"
  "previous_hash (fst (create_block sha st self txs prev h)) = prev"
  by (simp_all add: create_block_def generate_quantum_hash_def Let_def)

text \<open>
  Claim C3 (hashing algorithm) does not hold of \<^verbatim>\<open>qtp.py\<close>. \<^verbatim>\<open>QuantumNode.create_block\<close>
  digests the joined transactions, then the previous hash, then the simulator's string
  (lemma \<open>create_block_hash\<close>). \<^verbatim>\<open>QuantumBlock.generate_hash\<close> digests the simulator's
  string alone, so the hash of a \<^verbatim>\<open>QuantumBlock\<close> is the same whatever its transactions
  and previous hash. The last conjunct is the first block of the file's own example, with
  the identity standing in for the digest.
\<close>

theorem QuantumBlock_hash_ignores_contents:
  "hash (QuantumBlock sha state_str txs prev) = sha state_str
   \<and> hash (QuantumBlock sha state_str txs prev) = hash (QuantumBlock sha state_str txs' prev')
   \<and> hash (QuantumBlock id ''e'' [''JF pays DF 20 QTP''] (replicate 64 (CHR ''0'')))
        \<noteq> id (concat [''JF pays DF 20 QTP''] @ replicate 64 (CHR ''0'') @ ''e'')"
  by (simp add: QuantumBlock_def generate_hash_def)

section \<open>The optimizer\<close>

lemma length_remove: "i < length xs \<Longrightarrow> length (take i xs @ drop (Suc i) xs) = length xs - 1"
  by simp

lemma mset_remove:
  "i < length xs \<Longrightarrow> add_mset (xs ! i) (mset (take i xs @ drop (Suc i) xs)) = mset xs"
proof -
  assume "i < length xs"
  then have "xs = take i xs @ xs ! i # drop (Suc i) xs"
    by (rule id_take_nth_drop)
  then have "mset xs = mset (take i xs @ xs ! i # drop (Suc i) xs)"
    by simp
  then show ?thesis by simp
qed

lemma permutations_Nil: "permutations [] = [[]]"
  by (simp add: permutations.simps)

lemma permutations_Cons:
  "xs \<noteq> [] \<Longrightarrow> permutations xs =
     concat (map (\<lambda>i. map (\<lambda>p. xs ! i # p) (permutations (take i xs @ drop (Suc i) xs)))
                 [0..<length xs])"
  by (subst permutations.simps) simp

lemma length_permutations: "length (permutations xs) = fact (length xs)"
proof (induction xs rule: permutations.induct)
  case (1 xs)
  show ?case
  proof (cases "xs = []")
    case True
    then show ?thesis by (simp add: permutations_Nil)
  next
    case False
    have IH: "length (permutations (take i xs @ drop (Suc i) xs)) = fact (length xs - 1)"
      if "i < length xs" for i
      using "1.IH" [OF False, of i] that length_remove [OF that] by simp
    have "length (permutations xs) =
            sum_list (map (\<lambda>i. length (permutations (take i xs @ drop (Suc i) xs))) [0..<length xs])"
      by (simp add: permutations_Cons [OF False] length_concat comp_def)
    also have "\<dots> = sum_list (map (\<lambda>i. fact (length xs - 1)) [0..<length xs])"
      by (rule arg_cong [where f = sum_list], rule map_cong) (simp_all add: IH)
    also have "\<dots> = length xs * fact (length xs - 1)"
      by (simp add: sum_list_triv)
    also have "\<dots> = fact (length xs)"
      using False by (cases xs) simp_all
    finally show ?thesis .
  qed
qed

lemma set_permutations: "set (permutations xs) = {p. mset p = mset xs}"
proof (induction xs rule: permutations.induct)
  case (1 xs)
  show ?case
  proof (cases "xs = []")
    case True
    then show ?thesis by (auto simp: permutations_Nil)
  next
    case False
    have IH: "set (permutations (take i xs @ drop (Suc i) xs)) = {p. mset p = mset (take i xs @ drop (Suc i) xs)}"
      if "i < length xs" for i
      using "1.IH" [OF False, of i] that by simp
    have mem: "p \<in> set (permutations xs) \<longleftrightarrow>
        (\<exists>i<length xs. \<exists>q. p = xs ! i # q \<and> mset q = mset (take i xs @ drop (Suc i) xs))" for p
      unfolding permutations_Cons [OF False] using IH by auto
    show ?thesis
    proof (intro set_eqI iffI; clarify)
      fix p assume "p \<in> set (permutations xs)"
      then obtain i q where i: "i < length xs" and p: "p = xs ! i # q"
        and q: "mset q = mset (take i xs @ drop (Suc i) xs)"
        unfolding mem by blast
      show "mset p = mset xs"
        using mset_remove [OF i] by (simp add: p q)
    next
      fix p assume eq: "mset p = mset xs"
      then have "p \<noteq> []" using False by auto
      then obtain a q where p: "p = a # q" by (cases p) auto
      have "a \<in> set xs"
        using eq p by (metis list.set_intros(1) set_mset_mset)
      then obtain i where i: "i < length xs" and a: "xs ! i = a"
        by (auto simp: in_set_conv_nth)
      have "add_mset a (mset q) = add_mset a (mset (take i xs @ drop (Suc i) xs))"
        using eq mset_remove [OF i] by (simp add: p a)
      then have "mset q = mset (take i xs @ drop (Suc i) xs)" by simp
      then show "p \<in> set (permutations xs)"
        unfolding mem using i a p by blast
    qed
  qed
qed

lemma fold_add_sum:
  "fold (\<lambda>i (cost::int). cost + f i) [0..<n] a = a + (\<Sum>i<n. f i)"
  by (induction n) simp_all

lemma calculate_cost_sum:
  "calculate_cost h order = (\<Sum>i<length order - 1. \<bar>h (order ! i) - h (order ! (i + 1))\<bar>)"
  by (simp add: calculate_cost_def fold_add_sum)

lemma optimize_fold_invariant:
  "ps \<noteq> [] \<Longrightarrow>
   \<exists>k<length ps. fold (optimize_step h) ps (b0, Infinity) = (ps ! k, Finite (calculate_cost h (ps ! k)))
      \<and> (\<forall>j<length ps. calculate_cost h (ps ! k) \<le> calculate_cost h (ps ! j))
      \<and> (\<forall>j<k. calculate_cost h (ps ! k) < calculate_cost h (ps ! j))"
proof (induction ps rule: rev_induct)
  case Nil
  then show ?case by simp
next
  case (snoc p ps)
  show ?case
  proof (cases "ps = []")
    case True
    then show ?thesis by (simp add: optimize_step_def)
  next
    case False
    from snoc.IH [OF False] obtain k where k: "k < length ps"
      and st: "fold (optimize_step h) ps (b0, Infinity) = (ps ! k, Finite (calculate_cost h (ps ! k)))"
      and mn: "\<forall>j<length ps. calculate_cost h (ps ! k) \<le> calculate_cost h (ps ! j)"
      and fs: "\<forall>j<k. calculate_cost h (ps ! k) < calculate_cost h (ps ! j)"
      by blast
    show ?thesis
    proof (cases "calculate_cost h p < calculate_cost h (ps ! k)")
      case True
      have "fold (optimize_step h) (ps @ [p]) (b0, Infinity) = (p, Finite (calculate_cost h p))"
        using True by (simp add: st optimize_step_def)
      moreover have "\<forall>j<length ps. calculate_cost h p < calculate_cost h (ps ! j)"
        using True mn by fastforce
      ultimately show ?thesis
        by (intro exI [of _ "length ps"]) (auto simp: nth_append less_Suc_eq)
    next
      case nless: False
      have "fold (optimize_step h) (ps @ [p]) (b0, Infinity) = (ps ! k, Finite (calculate_cost h (ps ! k)))"
        using nless by (simp add: st optimize_step_def)
      then show ?thesis
        using k mn fs nless by (intro exI [of _ k]) (auto simp: nth_append less_Suc_eq)
    qed
  qed
qed

lemma permutations_nonempty: "permutations xs \<noteq> []"
  using length_permutations [of xs] by (metis fact_nonzero list.size(3))

text \<open>
  Claim C4 (optimizer correctness), as amended. The cost of an ordering is the sum over
  adjacent pairs of the absolute difference of their hashes, the hash being the
  interpreter's built-in \<^verbatim>\<open>hash\<close>: one function within a run, the parameter
  \<open>py_hash\<close> here, and for strings not the same function in every process. For every such
  function and every list of transactions, \<^verbatim>\<open>optimize_transaction_order\<close> returns a
  permutation of its input whose cost is at most the cost of every permutation of the
  input, of which \<^verbatim>\<open>itertools.permutations\<close> enumerates \<open>n!\<close>, covering all of them.
  The result is the first minimal one of the enumeration: every ordering enumerated
  before it costs strictly more.
\<close>

theorem optimize_minimal:
  "mset (optimize_transaction_order py_hash txs) = mset txs
   \<and> length (permutations txs) = fact (length txs)
   \<and> set (permutations txs) = {p. mset p = mset txs}
   \<and> calculate_cost py_hash cand =
        (\<Sum>i<length cand - 1. \<bar>py_hash (cand ! i) - py_hash (cand ! (i + 1))\<bar>)
   \<and> (\<forall>p. mset p = mset txs \<longrightarrow>
          calculate_cost py_hash (optimize_transaction_order py_hash txs) \<le> calculate_cost py_hash p)
   \<and> (\<exists>k<length (permutations txs).
          permutations txs ! k = optimize_transaction_order py_hash txs \<and>
          (\<forall>j<k. calculate_cost py_hash (optimize_transaction_order py_hash txs)
                    < calculate_cost py_hash (permutations txs ! j)))"
proof -
  let ?ps = "permutations txs" and ?r = "optimize_transaction_order py_hash txs"
  from optimize_fold_invariant [where ps = "permutations txs" and h = py_hash and ?b0.0 = txs,
      OF permutations_nonempty]
  obtain k where k: "k < length ?ps" and r: "?r = ?ps ! k"
    and mn: "\<forall>j<length ?ps. calculate_cost py_hash ?r \<le> calculate_cost py_hash (?ps ! j)"
    and fs: "\<forall>j<k. calculate_cost py_hash ?r < calculate_cost py_hash (?ps ! j)"
    by (auto simp: optimize_transaction_order_def)
  have "?r \<in> set ?ps"
    using k r by simp
  then have perm: "mset ?r = mset txs"
    by (simp add: set_permutations)
  have least: "calculate_cost py_hash ?r \<le> calculate_cost py_hash p" if "mset p = mset txs" for p
  proof -
    from that have "p \<in> set ?ps" by (simp add: set_permutations)
    then obtain j where "j < length ?ps" "?ps ! j = p" by (auto simp: in_set_conv_nth)
    with mn show ?thesis by auto
  qed
  have first: "\<exists>k<length ?ps. ?ps ! k = ?r \<and>
      (\<forall>j<k. calculate_cost py_hash ?r < calculate_cost py_hash (?ps ! j))"
    using k r fs by auto
  show ?thesis
  proof (intro conjI allI impI)
    show "mset ?r = mset txs" by (rule perm)
    show "length ?ps = fact (length txs)" by (rule length_permutations)
    show "set ?ps = {p. mset p = mset txs}" by (rule set_permutations)
    show "calculate_cost py_hash cand =
        (\<Sum>i<length cand - 1. \<bar>py_hash (cand ! i) - py_hash (cand ! (i + 1))\<bar>)"
      by (rule calculate_cost_sum)
    show "calculate_cost py_hash ?r \<le> calculate_cost py_hash p" if "mset p = mset txs" for p
      using that by (rule least)
    show "\<exists>k<length ?ps. ?ps ! k = ?r \<and>
      (\<forall>j<k. calculate_cost py_hash ?r < calculate_cost py_hash (?ps ! j))"
      by (rule first)
  qed
qed

theorem optimize_minimal_witness:
  "mset [''a'', ''aa'', ''aaa''] = mset [''aaa'', ''a'', ''aa'']
   \<and> calculate_cost (\<lambda>s. int (length s))
        (optimize_transaction_order (\<lambda>s. int (length s)) [''aaa'', ''a'', ''aa''])
       \<le> calculate_cost (\<lambda>s. int (length s)) [''a'', ''aa'', ''aaa'']
   \<and> calculate_cost (\<lambda>s. int (length s)) [''a'', ''aa'', ''aaa''] = 2
   \<and> mset (optimize_transaction_order (\<lambda>s. int (length s)) [''aaa'', ''a'', ''aa''])
       = mset [''aaa'', ''a'', ''aa'']
   \<and> length (permutations [''aaa'', ''a'', ''aa'']) = 6"
proof -
  note T = optimize_minimal [of "\<lambda>s. int (length s)" "[''aaa'', ''a'', ''aa'']" "[''a'', ''aa'', ''aaa'']"]
  have m: "mset [''a'', ''aa'', ''aaa''] = mset [''aaa'', ''a'', ''aa'']"
    by simp
  have c: "calculate_cost (\<lambda>s. int (length s)) [''a'', ''aa'', ''aaa''] = 2"
    by (simp add: calculate_cost_def upt_rec)
  have f: "fact (length [''aaa'', ''a'', ''aa'']) = (6::nat)"
    by (simp add: fact_numeral numeral_3_eq_3 [symmetric])
  from T m have "calculate_cost (\<lambda>s. int (length s))
        (optimize_transaction_order (\<lambda>s. int (length s)) [''aaa'', ''a'', ''aa''])
       \<le> calculate_cost (\<lambda>s. int (length s)) [''a'', ''aa'', ''aaa'']"
    by blast
  moreover from T have "mset (optimize_transaction_order (\<lambda>s. int (length s)) [''aaa'', ''a'', ''aa''])
       = mset [''aaa'', ''a'', ''aa'']" by blast
  moreover from T f have "length (permutations [''aaa'', ''a'', ''aa'']) = 6" by metis
  ultimately show ?thesis using m c by blast
qed

text \<open>
  Claim C4 as stated fails: it takes the hash to be process-independent, which makes the
  result a function of the input alone. The code calls the built-in \<^verbatim>\<open>hash\<close> on
  strings, and the order returned for one and the same input changes with the hash
  function the process has.
\<close>

theorem optimize_depends_on_hash_counterexample:
  "optimize_transaction_order (\<lambda>s. int (length s)) [''aaa'', ''a'', ''aa''] = [''aaa'', ''aa'', ''a'']
   \<and> optimize_transaction_order (\<lambda>s. if s = ''aa'' then 10 else int (length s)) [''aaa'', ''a'', ''aa'']
        = [''a'', ''aaa'', ''aa'']
   \<and> optimize_transaction_order (\<lambda>s. int (length s)) [''aaa'', ''a'', ''aa'']
        \<noteq> optimize_transaction_order (\<lambda>s. if s = ''aa'' then 10 else int (length s))
             [''aaa'', ''a'', ''aa'']"
  by code_simp

text \<open>
  Claim C8 (optimizer identity on trivial input). The empty list is returned as the empty
  list, and a one-element list as the same one-element list.
\<close>

theorem optimize_trivial_input:
  "optimize_transaction_order py_hash [] = []
   \<and> optimize_transaction_order py_hash [x] = [x]"
proof -
  have "permutations [x] = [[x]]"
    by (simp add: permutations_Cons permutations_Nil)
  then show ?thesis
    by (simp add: optimize_transaction_order_def permutations_Nil optimize_step_def)
qed

section \<open>Ledger operations\<close>

text \<open>
  Claim C9 (not-configured precondition), as amended. \<^verbatim>\<open>create_transaction\<close> and
  \<^verbatim>\<open>transfer_erc20\<close>, the two operations that need the deployed contract, raise
  \<^verbatim>\<open>ValueError("ERC20 contract not deployed.")\<close> when \<^verbatim>\<open>self.contract\<close> is
  \<^verbatim>\<open>None\<close>, before anything else is done, and they raise that error in no other case.
  With a contract present the outcome is that of the conversation with the Ethereum node:
  the operation returns when it succeeds and raises the library's exception when it
  fails. A fresh network has no contract.
\<close>

theorem not_configured_guard:
  "(contract net = None \<longrightarrow>
      create_transaction web3 sender recipient amount key net
        = Inl (ValueError ''ERC20 contract not deployed.'') \<and>
      transfer_erc20 web3' recipient amount sender key net
        = Inl (ValueError ''ERC20 contract not deployed.''))
   \<and> (create_transaction web3 sender recipient amount key net
        = Inl (ValueError ''ERC20 contract not deployed.'') \<longrightarrow> contract net = None)
   \<and> (transfer_erc20 web3' recipient amount sender key net
        = Inl (ValueError ''ERC20 contract not deployed.'') \<longrightarrow> contract net = None)
   \<and> (contract net = Some c \<longrightarrow>
        create_transaction web3 sender recipient amount key net =
          (case web3 c recipient amount sender key of
             Inl msg \<Rightarrow> Inl (ConnectorError msg) | Inr tx_hash \<Rightarrow> Inr (PyBytes tx_hash, net)) \<and>
        transfer_erc20 web3' recipient amount sender key net =
          (case web3' c recipient amount sender key of
             Inl msg \<Rightarrow> Inl (ConnectorError msg) | Inr tx_hash \<Rightarrow> Inr (PyNone, net)))
   \<and> contract (QuantumNetwork_init num_nodes) = None"
  by (auto simp: create_transaction_def transfer_erc20_def QuantumNetwork_init_def Let_def
      split: option.splits sum.splits)

theorem not_configured_guard_witness:
  "contract (QuantumNetwork_init 3) = None
   \<and> create_transaction (\<lambda>c r a s k. Inr ''0xhash'') ''0xA'' ''0xB'' 100 ''key'' (QuantumNetwork_init 3)
        = Inl (ValueError ''ERC20 contract not deployed.'')
   \<and> transfer_erc20 (\<lambda>c r a s k. Inr ''0xhash'') ''0xB'' 100 ''0xA'' ''key'' (QuantumNetwork_init 3)
        = Inl (ValueError ''ERC20 contract not deployed.'')
   \<and> contract ((QuantumNetwork_init 3)\<lparr>contract := Some (Contract ''0xC'')\<rparr>) = Some (Contract ''0xC'')
   \<and> create_transaction (\<lambda>c r a s k. Inr ''0xhash'') ''0xA'' ''0xB'' 100 ''key''
        ((QuantumNetwork_init 3)\<lparr>contract := Some (Contract ''0xC'')\<rparr>)
        = Inr (PyBytes ''0xhash'', (QuantumNetwork_init 3)\<lparr>contract := Some (Contract ''0xC'')\<rparr>)
   \<and> transfer_erc20 (\<lambda>c r a s k. Inr ''0xhash'') ''0xB'' 100 ''0xA'' ''key''
        ((QuantumNetwork_init 3)\<lparr>contract := Some (Contract ''0xC'')\<rparr>)
        = Inr (PyNone, (QuantumNetwork_init 3)\<lparr>contract := Some (Contract ''0xC'')\<rparr>)"
proof -
  let ?w = "\<lambda>(c::Contract) (r::string) (a::int) (s::string) (k::string). (Inr ''0xhash'' :: string + string)"
  let ?n = "(QuantumNetwork_init 3)\<lparr>contract := Some (Contract ''0xC'')\<rparr>"
  note A = not_configured_guard [of "QuantumNetwork_init 3" ?w "''0xA''" "''0xB''" 100 "''key''" ?w
      "Contract ''0xC''" 3]
  note B = not_configured_guard [of ?n ?w "''0xA''" "''0xB''" 100 "''key''" ?w "Contract ''0xC''" 3]
  have c: "contract ?n = Some (Contract ''0xC'')" by simp
  from A have 1: "contract (QuantumNetwork_init 3) = None" by blast
  with A have 2: "create_transaction ?w ''0xA'' ''0xB'' 100 ''key'' (QuantumNetwork_init 3)
        = Inl (ValueError ''ERC20 contract not deployed.'')"
    and 3: "transfer_erc20 ?w ''0xB'' 100 ''0xA'' ''key'' (QuantumNetwork_init 3)
        = Inl (ValueError ''ERC20 contract not deployed.'')"
    by blast+
  from B c have 4: "create_transaction ?w ''0xA'' ''0xB'' 100 ''key'' ?n = Inr (PyBytes ''0xhash'', ?n)"
    and 5: "transfer_erc20 ?w ''0xB'' 100 ''0xA'' ''key'' ?n = Inr (PyNone, ?n)"
    by simp_all
  from 1 2 3 4 5 c show ?thesis by simp
qed

text \<open>
  Claim C9 as stated fails in its last part, that these operations raise exactly when the
  contract is absent: with a contract deployed and the Ethereum node refusing the
  connection, both operations raise.
\<close>

theorem raises_with_contract_counterexample:
  "contract ((QuantumNetwork_init 3)\<lparr>contract := Some (Contract ''0xC'')\<rparr>) = Some (Contract ''0xC'')
   \<and> create_transaction (\<lambda>c r a s k. Inl ''connection refused'') ''0xA'' ''0xB'' 100 ''key''
        ((QuantumNetwork_init 3)\<lparr>contract := Some (Contract ''0xC'')\<rparr>)
        = Inl (ConnectorError ''connection refused'')
   \<and> transfer_erc20 (\<lambda>c r a s k. Inl ''connection refused'') ''0xB'' 100 ''0xA'' ''key''
        ((QuantumNetwork_init 3)\<lparr>contract := Some (Contract ''0xC'')\<rparr>)
        = Inl (ConnectorError ''connection refused'')"
  by (simp add: create_transaction_def transfer_erc20_def)

end
